theory Spec2Isabelle
  imports Main
begin

section \<open>SQL values and three-valued logic\<close>

text \<open>
  The stored logic of the ticketing application is written in PL/pgSQL
  (\<^verbatim>\<open>update_user_ts\<close>, \<^verbatim>\<open>check_tickets_remaining\<close>, \<^verbatim>\<open>full_name\<close>).
  A nullable SQL value is an \<open>option\<close>: \<open>None\<close> is NULL. A condition evaluates to
  TRUE, FALSE or NULL (\<open>Some True\<close>, \<open>Some False\<close>, \<open>None\<close>), and a \<^verbatim>\<open>WHERE\<close>
  clause keeps a row only when its condition is TRUE.
\<close>

definition sql_eq :: "'a option \<Rightarrow> 'a option \<Rightarrow> bool option" where
  "sql_eq a b = (case a of None \<Rightarrow> None
                 | Some x \<Rightarrow> (case b of None \<Rightarrow> None | Some y \<Rightarrow> Some (x = y)))"

definition sql_neq :: "'a option \<Rightarrow> 'a option \<Rightarrow> bool option" where
  "sql_neq a b = (case a of None \<Rightarrow> None
                  | Some x \<Rightarrow> (case b of None \<Rightarrow> None | Some y \<Rightarrow> Some (x \<noteq> y)))"

definition sql_gt :: "int option \<Rightarrow> int option \<Rightarrow> bool option" where
  "sql_gt a b = (case a of None \<Rightarrow> None
                 | Some x \<Rightarrow> (case b of None \<Rightarrow> None | Some y \<Rightarrow> Some (x > y)))"

definition sql_minus :: "int option \<Rightarrow> int option \<Rightarrow> int option" where
  "sql_minus a b = (case a of None \<Rightarrow> None
                    | Some x \<Rightarrow> (case b of None \<Rightarrow> None | Some y \<Rightarrow> Some (x - y)))"

definition sql_and :: "bool option \<Rightarrow> bool option \<Rightarrow> bool option" where
  "sql_and a b = (if a = Some False \<or> b = Some False then Some False
                  else if a = Some True \<and> b = Some True then Some True
                  else None)"

definition sql_where :: "bool option \<Rightarrow> bool" where
  "sql_where c = (c = Some True)"

text \<open>The string operator \<^verbatim>\<open>||\<close>: NULL as soon as one operand is NULL.\<close>

definition sql_concat :: "string option \<Rightarrow> string option \<Rightarrow> string option" where
  "sql_concat a b = (case a of None \<Rightarrow> None
                     | Some x \<Rightarrow> (case b of None \<Rightarrow> None | Some y \<Rightarrow> Some (x @ y)))"

text \<open>\<^verbatim>\<open>coalesce(a, b, ...)\<close>: the first argument that is not NULL, NULL when all are.\<close>

fun coalesce :: "'a option list \<Rightarrow> 'a option" where
  "coalesce [] = None"
| "coalesce (None # xs) = coalesce xs"
| "coalesce (Some x # xs) = Some x"

text \<open>\<^verbatim>\<open>coalesce(a, d)\<close> with a literal \<open>d\<close> as last argument is never NULL.\<close>

definition coalesce_lit :: "'a option \<Rightarrow> 'a \<Rightarrow> 'a" where
  "coalesce_lit a d = (case coalesce [a, Some d] of None \<Rightarrow> d | Some x \<Rightarrow> x)"

text \<open>
  Timestamps (\<^verbatim>\<open>timestamptz\<close>) and intervals are counts of microseconds, as PostgreSQL
  stores them: a timestamp is the number of microseconds since the epoch, and the
  difference of two timestamps is an interval of days and microseconds, compared by its
  total length. \<^verbatim>\<open>(ttl || ' seconds')::interval\<close> is the interval of \<open>ttl\<close> seconds, NULL
  when \<open>ttl\<close> is NULL.
\<close>

definition seconds_interval :: "int option \<Rightarrow> int option" where
  "seconds_interval ttl = map_option (\<lambda>n. n * 1000000) ttl"

text \<open>
  A PL/pgSQL call either returns a value (possibly NULL) or raises an error that aborts
  the statement and rolls back what the call has done. None of the three functions
  contains a \<^verbatim>\<open>RAISE\<close>; the errors are those of the statements themselves.
\<close>

datatype 'a outcome = Returns 'a | Raises string

fun raised :: "'a outcome \<Rightarrow> bool" where
  "raised (Returns v) = False"
| "raised (Raises msg) = True"

text \<open>
  \<^verbatim>\<open>INT\<close> is the 32-bit signed integer. Arithmetic on it and conversions to it are
  checked: a value outside the range raises \<^verbatim>\<open>integer out of range\<close> (SQLSTATE 22003)
  instead of wrapping around.
\<close>

definition int4 :: "int \<Rightarrow> bool" where
  "int4 n = (- 2147483648 \<le> n \<and> n \<le> 2147483647)"

definition out_of_range :: string where
  "out_of_range = ''integer out of range''"

text \<open>The operator \<^verbatim>\<open>-\<close> on \<^verbatim>\<open>INT\<close>: NULL when an operand is NULL, checked otherwise.\<close>

definition int4_minus :: "int option \<Rightarrow> int option \<Rightarrow> string + int option" where
  "int4_minus a b =
     (case a of None \<Rightarrow> Inr None
      | Some x \<Rightarrow> (case b of None \<Rightarrow> Inr None
                   | Some y \<Rightarrow> if int4 (x - y) then Inr (Some (x - y)) else Inl out_of_range))"

section \<open>Tables\<close>

text \<open>
  Modelled from the spec: the \<^verbatim>\<open>CREATE TABLE\<close> statements of \<^verbatim>\<open>events\<close>, \<^verbatim>\<open>tickets\<close>,
  \<^verbatim>\<open>users\<close> and \<^verbatim>\<open>actions\<close> are not among the sources; the columns below are the ones
  the three functions read or write, typed as the specification's data model has them.
  A ticket has an identifier, an owning event, a status among reserved, paid and
  cancelled, and the timestamp of its reservation. An event has an identifier (the key of
  the table, hence a map from identifiers to rows), a ticket limit and the cached number
  of tickets taken. A user has an identifier, profile fields and the timestamp of the
  last activity. An action refers to a user, or to none. The ticket limit and the
  cached count are \<^verbatim>\<open>INT\<close> columns, as the variable \<^verbatim>\<open>tickets_taken_\<close> and the result of
  \<^verbatim>\<open>check_tickets_remaining\<close> are; a record holds them as integers, and the function checks
  the range where it converts or subtracts.
\<close>

datatype ticket_status = Reserved | Paid | Cancelled

record ticket =
  ticket_id :: int
  event :: int
  status :: ticket_status
  created_ts :: int

record event_row =
  ticket_limit :: int
  tickets_taken :: int

record user_row =
  first_name :: "string option"
  last_name :: "string option"
  email :: "string option"
  active_ts :: int

record action_row =
  action_id :: int
  user_id :: "int option"

record db =
  events :: "int \<rightharpoonup> event_row"
  tickets :: "ticket list"
  users :: "int \<rightharpoonup> user_row"
  actions :: "action_row list"

text \<open>
  Modelled from the spec: every ticket is owned by an event (many-to-one), that is, the
  column \<^verbatim>\<open>tickets.event\<close> refers to a row of \<^verbatim>\<open>events\<close>.
\<close>

definition tickets_reference_events :: "db \<Rightarrow> bool" where
  "tickets_reference_events s = list_all (\<lambda>t. events s (event t) \<noteq> None) (tickets s)"

section \<open>The reservation function\<close>

text \<open>
  \<^verbatim>\<open>
  CREATE OR REPLACE FUNCTION check_tickets_remaining(event_id INT, ttl INT) RETURNS INT AS $$
    DECLARE
      tickets_taken_ INT;
    BEGIN
      DELETE FROM tickets
      WHERE status='reserved' AND event=event_id AND now() - created_ts > (ttl || ' seconds')::interval;

      SELECT coalesce(COUNT(*), 0) INTO tickets_taken_
      FROM tickets
      WHERE event=event_id AND status != 'cancelled';

      UPDATE events SET tickets_taken=tickets_taken_ WHERE id=event_id;

      return (SELECT ticket_limit - tickets_taken FROM events WHERE id=event_id);
    END;
  $$ LANGUAGE plpgsql;
  \<close>
  The function is not declared \<^verbatim>\<open>STRICT\<close>, so both parameters may be NULL. \<^verbatim>\<open>now()\<close> is
  the start time of the transaction, the same in every statement of the call: it is the
  parameter \<open>now\<close>. Two statements can fail. \<^verbatim>\<open>COUNT(*)\<close> is a \<^verbatim>\<open>BIGINT\<close>, and storing
  it in the \<^verbatim>\<open>INT\<close> variable \<^verbatim>\<open>tickets_taken_\<close> raises when it does not fit. The
  subtraction of the \<^verbatim>\<open>return\<close> raises when the difference does not fit. In both cases the
  call is rolled back: the outcome is the error and the database is the one before the
  call.
\<close>

definition delete_where :: "int \<Rightarrow> int option \<Rightarrow> int option \<Rightarrow> ticket \<Rightarrow> bool option" where
  "delete_where now event_id ttl t =
     sql_and (sql_and (sql_eq (Some (status t)) (Some Reserved))
                      (sql_eq (Some (event t)) event_id))
             (sql_gt (sql_minus (Some now) (Some (created_ts t))) (seconds_interval ttl))"

definition count_where :: "int option \<Rightarrow> ticket \<Rightarrow> bool option" where
  "count_where event_id t =
     sql_and (sql_eq (Some (event t)) event_id) (sql_neq (Some (status t)) (Some Cancelled))"

definition delete_tickets :: "int \<Rightarrow> int option \<Rightarrow> int option \<Rightarrow> db \<Rightarrow> db" where
  "delete_tickets now event_id ttl s =
     s\<lparr>tickets := filter (\<lambda>t. \<not> sql_where (delete_where now event_id ttl t)) (tickets s)\<rparr>"

definition count_tickets :: "int option \<Rightarrow> db \<Rightarrow> int option" where
  "count_tickets event_id s =
     Some (int (length (filter (\<lambda>t. sql_where (count_where event_id t)) (tickets s))))"

definition update_events :: "int option \<Rightarrow> int \<Rightarrow> db \<Rightarrow> db" where
  "update_events event_id n s =
     s\<lparr>events := (\<lambda>i. if sql_where (sql_eq (Some i) event_id)
                       then map_option (\<lambda>e. e\<lparr>tickets_taken := n\<rparr>) (events s i)
                       else events s i)\<rparr>"

text \<open>
  The scalar subquery of the \<^verbatim>\<open>return\<close>: NULL when no row of \<^verbatim>\<open>events\<close> has the
  identifier (also when the identifier is NULL), the checked difference of the row
  otherwise.
\<close>

definition select_remaining :: "int option \<Rightarrow> db \<Rightarrow> string + int option" where
  "select_remaining event_id s =
     (case event_id of
        None \<Rightarrow> Inr None
      | Some i \<Rightarrow> (case events s i of
                     None \<Rightarrow> Inr None
                   | Some e \<Rightarrow> int4_minus (Some (ticket_limit e)) (Some (tickets_taken e))))"

definition check_tickets_remaining ::
  "int \<Rightarrow> int option \<Rightarrow> int option \<Rightarrow> db \<Rightarrow> int option outcome \<times> db" where
  "check_tickets_remaining now event_id ttl s =
     (let s1 = delete_tickets now event_id ttl s;
          tickets_taken' = coalesce_lit (count_tickets event_id s1) 0
      in if \<not> int4 tickets_taken' then (Raises out_of_range, s)
         else (let s2 = update_events event_id tickets_taken' s1
               in case select_remaining event_id s2 of
                    Inl err \<Rightarrow> (Raises err, s)
                  | Inr v \<Rightarrow> (Returns v, s2)))"

section \<open>The display name\<close>

text \<open>
  \<^verbatim>\<open>
  CREATE OR REPLACE FUNCTION full_name(first_name VARCHAR(255), last_name VARCHAR(255),
      email VARCHAR(255)) RETURNS VARCHAR(255) AS $$
    DECLARE
    BEGIN
      return coalesce(first_name || ' ' || last_name, first_name, last_name, email);
    END;
  $$ LANGUAGE plpgsql;
  \<close>
  \<^verbatim>\<open>||\<close> associates to the left. The length modifier of a parameter or result type is
  discarded by \<^verbatim>\<open>CREATE FUNCTION\<close>, so no value is cut to 255 characters.
\<close>

definition full_name :: "string option \<Rightarrow> string option \<Rightarrow> string option \<Rightarrow> string option" where
  "full_name fname lname mail =
     coalesce [sql_concat (sql_concat fname (Some '' '')) lname,
               fname, lname, mail]"

section \<open>The activity timestamp\<close>

text \<open>
  \<^verbatim>\<open>
  CREATE OR REPLACE FUNCTION update_user_ts() RETURNS trigger AS $$
    BEGIN
      UPDATE users SET active_ts=now() WHERE id=NEW.user_id;
      return NULL;
    END;
  $$ LANGUAGE plpgsql;

  CREATE TRIGGER update_user_ts AFTER INSERT ON actions FOR EACH ROW EXECUTE PROCEDURE update_user_ts();
  \<close>
  The trigger runs after the row is in the table, once for each inserted row; the value
  returned by an \<^verbatim>\<open>AFTER\<close> trigger is ignored.
\<close>

definition update_user_ts :: "int \<Rightarrow> action_row \<Rightarrow> db \<Rightarrow> db" where
  "update_user_ts now NEW s =
     s\<lparr>users := (\<lambda>i. if sql_where (sql_eq (Some i) (user_id NEW))
                      then map_option (\<lambda>u. u\<lparr>active_ts := now\<rparr>) (users s i)
                      else users s i)\<rparr>"

definition insert_action :: "int \<Rightarrow> action_row \<Rightarrow> db \<Rightarrow> db" where
  "insert_action now a s = update_user_ts now a (s\<lparr>actions := actions s @ [a]\<rparr>)"

text \<open>
  A run of insertions, each with the reading of the clock at its transaction, and the
  states it goes through (the initial one first).
\<close>

fun insert_actions :: "(int \<times> action_row) list \<Rightarrow> db \<Rightarrow> db list" where
  "insert_actions [] s = [s]"
| "insert_actions ((now, a) # xs) s = s # insert_actions xs (insert_action now a s)"

definition active_ts_history :: "int \<Rightarrow> db list \<Rightarrow> int list" where
  "active_ts_history uid ss = List.map_filter (\<lambda>s. map_option active_ts (users s uid)) ss"

section \<open>Auxiliary notions for the properties\<close>

text \<open>An identifier references an event when it is not NULL and a row has it.\<close>

definition references_event :: "db \<Rightarrow> int option \<Rightarrow> bool" where
  "references_event s event_id =
     (case event_id of None \<Rightarrow> False | Some i \<Rightarrow> events s i \<noteq> None)"

text \<open>The number of tickets of an event that have a given status.\<close>

definition count_status :: "int \<Rightarrow> ticket_status \<Rightarrow> ticket list \<Rightarrow> int" where
  "count_status e st ts = int (length (filter (\<lambda>t. event t = e \<and> status t = st) ts))"

text \<open>The number of tickets of an event that are not cancelled.\<close>

definition count_taken :: "int \<Rightarrow> ticket list \<Rightarrow> int" where
  "count_taken e ts = int (length (filter (\<lambda>t. event t = e \<and> status t \<noteq> Cancelled) ts))"

text \<open>
  What the sweep removes for an event and a time-to-live in seconds: the reserved tickets
  of the event that are older than the time-to-live, in microseconds.
\<close>

definition stale :: "int \<Rightarrow> int \<Rightarrow> int \<Rightarrow> ticket \<Rightarrow> bool" where
  "stale now e ttl t =
     (status t = Reserved \<and> event t = e \<and> now - created_ts t > ttl * 1000000)"

text \<open>
  The number of tickets of an event that the sweep leaves and that are not cancelled: what
  the call stores in \<^verbatim>\<open>tickets_taken_\<close>.
\<close>

definition swept_count :: "int \<Rightarrow> int \<Rightarrow> int option \<Rightarrow> db \<Rightarrow> int" where
  "swept_count now e ttl s = count_taken e (tickets (delete_tickets now (Some e) ttl s))"

subsection \<open>Sample data\<close>

definition mk_ticket :: "int \<Rightarrow> int \<Rightarrow> ticket_status \<Rightarrow> int \<Rightarrow> ticket" where
  "mk_ticket i e st ts = \<lparr>ticket_id = i, event = e, status = st, created_ts = ts\<rparr>"

text \<open>
  Event 1 has a limit of 10 and a cached count that has drifted to 11; it has eight paid
  tickets, three reservations made at second 80 and one cancelled ticket. Event 2 has an
  old reservation and a paid ticket. No event has the identifier 7.
\<close>

definition sample_tickets :: "ticket list" where
  "sample_tickets =
     map (\<lambda>i. mk_ticket i 1 Paid 5000000) [1, 2, 3, 4, 5, 6, 7, 8] @
     map (\<lambda>i. mk_ticket i 1 Reserved 80000000) [9, 10, 11] @
     [mk_ticket 12 1 Cancelled 7000000,
      mk_ticket 13 2 Reserved 1000000,
      mk_ticket 14 2 Paid 1000000]"

definition sample_events :: "int \<rightharpoonup> event_row" where
  "sample_events =
     [1 \<mapsto> \<lparr>ticket_limit = 10, tickets_taken = 11\<rparr>,
      2 \<mapsto> \<lparr>ticket_limit = 5, tickets_taken = 0\<rparr>]"

definition sample_users :: "int \<rightharpoonup> user_row" where
  "sample_users =
     [3 \<mapsto> \<lparr>first_name = Some ''Jo'', last_name = Some ''Smith'',
             email = Some ''a@b.com'', active_ts = 10\<rparr>]"

definition sample_db :: db where
  "sample_db = \<lparr>events = sample_events, tickets = sample_tickets,
                users = sample_users, actions = []\<rparr>"


text \<open>
  Event 1 with the smallest \<^verbatim>\<open>INT\<close> as its limit, a paid ticket and a reservation made
  at time 0.
\<close>

definition overflow_db :: db where
  "overflow_db =
     \<lparr>events = [1 \<mapsto> \<lparr>ticket_limit = - 2147483648, tickets_taken = 0\<rparr>],
      tickets = [mk_ticket 1 1 Paid 0, mk_ticket 2 1 Reserved 0],
      users = Map.empty, actions = []\<rparr>"

text \<open>Two tickets that refer to the identifier 7, which no event has.\<close>

definition orphan_db :: db where
  "orphan_db =
     \<lparr>events = sample_events,
      tickets = [mk_ticket 1 7 Reserved 0, mk_ticket 2 7 Paid 0],
      users = Map.empty, actions = []\<rparr>"

text \<open>User 3 with a stored \<^verbatim>\<open>active_ts\<close> of 100, and two actions of that user.\<close>

definition ahead_db :: db where
  "ahead_db =
     \<lparr>events = Map.empty, tickets = [],
      users = [3 \<mapsto> \<lparr>first_name = None, last_name = None, email = Some ''a@b.com'',
                      active_ts = 100\<rparr>],
      actions = []\<rparr>"

definition two_actions :: "(int \<times> action_row) list" where
  "two_actions = [(20, \<lparr>action_id = 1, user_id = Some 3\<rparr>),
                  (30, \<lparr>action_id = 2, user_id = Some 3\<rparr>)]"

section \<open>Basic facts\<close>

subsection \<open>Conditions with known arguments\<close>

lemma delete_where_Some:
  "sql_where (delete_where now (Some e) (Some ttl) t) = stale now e ttl t"
  by (auto simp: delete_where_def sql_where_def sql_and_def sql_eq_def sql_gt_def sql_minus_def seconds_interval_def stale_def)

lemma delete_where_no_event: "\<not> sql_where (delete_where now None ttl t)"
  by (auto simp: delete_where_def sql_where_def sql_and_def sql_eq_def)

lemma delete_where_no_ttl: "\<not> sql_where (delete_where now event_id None t)"
  by (auto simp: delete_where_def sql_where_def sql_and_def sql_gt_def sql_minus_def seconds_interval_def)

lemma delete_where_event:
  "sql_where (delete_where now event_id ttl t) \<Longrightarrow> event_id = Some (event t) \<and> status t = Reserved"
  by (auto simp: delete_where_def sql_where_def sql_and_def sql_eq_def split: option.splits if_splits)

lemma count_where_Some:
  "sql_where (count_where (Some e) t) = (event t = e \<and> status t \<noteq> Cancelled)"
  by (auto simp: count_where_def sql_where_def sql_and_def sql_eq_def sql_neq_def)

lemma count_where_no_event: "\<not> sql_where (count_where None t)"
  by (auto simp: count_where_def sql_where_def sql_and_def sql_eq_def)

lemma coalesce_lit_Some: "coalesce_lit (Some x) d = x"
  by (simp add: coalesce_lit_def)

lemma sql_where_eq_Some: "sql_where (sql_eq (Some i) (Some e)) = (i = e)"
  by (simp add: sql_where_def sql_eq_def)

lemma sql_where_eq_None: "\<not> sql_where (sql_eq (Some i) None)"
  by (simp add: sql_where_def sql_eq_def)

lemma int4_minus_Some:
  "int4_minus (Some x) (Some y) = (if int4 (x - y) then Inr (Some (x - y)) else Inl out_of_range)"
  by (simp add: int4_minus_def)

subsection \<open>The statements of the reservation function\<close>

lemma count_tickets_Some: "count_tickets (Some e) s = Some (count_taken e (tickets s))"
  by (simp add: count_tickets_def count_taken_def count_where_Some)

lemma tickets_delete_tickets:
  "tickets (delete_tickets now (Some e) (Some ttl) s) = filter (\<lambda>t. \<not> stale now e ttl t) (tickets s)"
  by (simp add: delete_tickets_def delete_where_Some)

lemma events_delete_tickets: "events (delete_tickets now event_id ttl s) = events s"
  by (simp add: delete_tickets_def)

lemma tickets_update_events: "tickets (update_events event_id n s) = tickets s"
  by (simp add: update_events_def)

lemma events_update_events_Some:
  "events (update_events (Some e) n s) =
     (case events s e of None \<Rightarrow> events s | Some E \<Rightarrow> (events s)(e \<mapsto> E\<lparr>tickets_taken := n\<rparr>))"
  by (auto simp: update_events_def sql_where_eq_Some fun_eq_iff split: option.splits)

lemma events_swept:
  assumes "events s e = Some E"
  shows "events (update_events (Some e) n (delete_tickets now (Some e) ttl s)) e =
           Some (E\<lparr>tickets_taken := n\<rparr>)"
  using assms by (simp add: events_update_events_Some events_delete_tickets)

lemma select_remaining_Some:
  "events s e = Some E \<Longrightarrow>
     select_remaining (Some e) s =
       (if int4 (ticket_limit E - tickets_taken E)
        then Inr (Some (ticket_limit E - tickets_taken E)) else Inl out_of_range)"
  by (simp add: select_remaining_def int4_minus_Some)

lemma select_remaining_missing:
  "\<not> references_event s event_id \<Longrightarrow> select_remaining event_id s = Inr None"
  by (cases event_id) (auto simp: select_remaining_def references_event_def)

subsection \<open>The call: it returns with the new state or raises with the old one\<close>

lemma check_unfold:
  "check_tickets_remaining now event_id ttl s =
     (if \<not> int4 (coalesce_lit (count_tickets event_id (delete_tickets now event_id ttl s)) 0)
      then (Raises out_of_range, s)
      else (case select_remaining event_id
                  (update_events event_id
                     (coalesce_lit (count_tickets event_id (delete_tickets now event_id ttl s)) 0)
                     (delete_tickets now event_id ttl s)) of
              Inl err \<Rightarrow> (Raises err, s)
            | Inr v \<Rightarrow>
                (Returns v,
                 update_events event_id
                   (coalesce_lit (count_tickets event_id (delete_tickets now event_id ttl s)) 0)
                   (delete_tickets now event_id ttl s))))"
  by (simp add: check_tickets_remaining_def Let_def)

lemma check_raised_rollback:
  "raised (fst (check_tickets_remaining now event_id ttl s)) \<Longrightarrow>
     snd (check_tickets_remaining now event_id ttl s) = s"
  by (simp add: check_unfold split: if_splits sum.splits)

lemma check_returned:
  assumes "\<not> raised (fst (check_tickets_remaining now event_id ttl s))"
  shows "int4 (coalesce_lit (count_tickets event_id (delete_tickets now event_id ttl s)) 0)"
    and "snd (check_tickets_remaining now event_id ttl s) =
           update_events event_id
             (coalesce_lit (count_tickets event_id (delete_tickets now event_id ttl s)) 0)
             (delete_tickets now event_id ttl s)"
    and "select_remaining event_id (snd (check_tickets_remaining now event_id ttl s)) =
           (case fst (check_tickets_remaining now event_id ttl s) of
              Returns v \<Rightarrow> Inr v | Raises err \<Rightarrow> Inl err)"
  using assms by (auto simp: check_unfold split: if_splits sum.splits)

lemma tickets_check_returned:
  assumes "\<not> raised (fst (check_tickets_remaining now event_id ttl s))"
  shows "tickets (snd (check_tickets_remaining now event_id ttl s)) =
     filter (\<lambda>t. \<not> sql_where (delete_where now event_id ttl t)) (tickets s)"
  by (simp add: check_returned(2) [OF assms] tickets_update_events delete_tickets_def)

lemma check_existing:
  assumes "events s e = Some E"
  shows "check_tickets_remaining now (Some e) ttl s =
     (if int4 (swept_count now e ttl s) \<and> int4 (ticket_limit E - swept_count now e ttl s)
      then (Returns (Some (ticket_limit E - swept_count now e ttl s)),
            update_events (Some e) (swept_count now e ttl s) (delete_tickets now (Some e) ttl s))
      else (Raises out_of_range, s))"
  by (simp add: check_unfold count_tickets_Some coalesce_lit_Some swept_count_def
      select_remaining_Some [OF events_swept [OF assms]])

lemma raised_existing:
  assumes "events s e = Some E"
  shows "(\<not> raised (fst (check_tickets_remaining now (Some e) ttl s))) =
     (int4 (swept_count now e ttl s) \<and> int4 (ticket_limit E - swept_count now e ttl s))"
  by (simp add: check_existing [OF assms])

lemma swept_count_returned:
  assumes "\<not> raised (fst (check_tickets_remaining now (Some e) ttl s))"
  shows "count_taken e (tickets (snd (check_tickets_remaining now (Some e) ttl s))) =
           swept_count now e ttl s"
  by (simp add: tickets_check_returned [OF assms] swept_count_def delete_tickets_def)

lemma events_check_existing:
  assumes "events s e = Some E"
    and "\<not> raised (fst (check_tickets_remaining now (Some e) ttl s))"
  shows "events (snd (check_tickets_remaining now (Some e) ttl s)) e =
     Some (E\<lparr>tickets_taken :=
               count_taken e (tickets (snd (check_tickets_remaining now (Some e) ttl s)))\<rparr>)"
proof -
  have "events (snd (check_tickets_remaining now (Some e) ttl s)) e =
      Some (E\<lparr>tickets_taken := swept_count now e ttl s\<rparr>)"
    using assms(2) raised_existing [OF assms(1), of now ttl]
    by (simp add: check_existing [OF assms(1)] events_swept [OF assms(1)])
  then show ?thesis by (simp add: swept_count_returned [OF assms(2)])
qed

lemma remaining_existing:
  assumes "events s e = Some E"
    and "\<not> raised (fst (check_tickets_remaining now (Some e) ttl s))"
  shows "fst (check_tickets_remaining now (Some e) ttl s) =
     Returns (Some (ticket_limit E -
        count_taken e (tickets (snd (check_tickets_remaining now (Some e) ttl s)))))"
  using assms(2) raised_existing [OF assms(1), of now ttl]
  by (simp add: swept_count_returned [OF assms(2)]) (simp add: check_existing [OF assms(1)])

subsection \<open>Counting\<close>

lemma count_taken_split:
  "count_taken e ts = count_status e Reserved ts + count_status e Paid ts"
proof (induction ts)
  case Nil
  show ?case by (simp add: count_taken_def count_status_def)
next
  case (Cons t ts)
  then show ?case
    by (cases "status t") (auto simp: count_taken_def count_status_def)
qed

lemma filter_not_stale_count_status_Paid:
  "count_status e Paid (filter (\<lambda>t. \<not> stale now e' ttl t) ts) = count_status e Paid ts"
  by (induction ts) (auto simp: count_status_def stale_def)

lemma all_stale_filter:
  assumes "\<forall>t\<in>set ts. event t = e \<and> status t = Reserved \<longrightarrow> stale now e ttl t"
  shows "filter (\<lambda>t. \<not> stale now e ttl t) ts = filter (\<lambda>t. \<not> (event t = e \<and> status t = Reserved)) ts"
  using assms by (intro filter_cong) (auto simp: stale_def)

lemma count_status_filter_out:
  "count_status e Reserved (filter (\<lambda>t. \<not> (event t = e \<and> status t = Reserved)) ts) = 0"
  by (induction ts) (auto simp: count_status_def)

lemma length_filter_out:
  "int (length ts) - int (length (filter (\<lambda>t. \<not> (event t = e \<and> status t = Reserved)) ts)) =
     count_status e Reserved ts"
  by (induction ts) (auto simp: count_status_def)

lemma swept_count_example:
  assumes paid: "count_status e Paid (tickets s) = 8"
    and old: "\<forall>t\<in>set (tickets s). event t = e \<and> status t = Reserved \<longrightarrow>
                created_ts t = now - 120000000"
  shows "tickets (delete_tickets now (Some e) (Some 60) s) =
           filter (\<lambda>t. \<not> (event t = e \<and> status t = Reserved)) (tickets s)"
    and "swept_count now e (Some 60) s = 8"
proof -
  have st: "\<forall>t\<in>set (tickets s). event t = e \<and> status t = Reserved \<longrightarrow> stale now e 60 t"
    using old by (auto simp: stale_def)
  show tk: "tickets (delete_tickets now (Some e) (Some 60) s) =
      filter (\<lambda>t. \<not> (event t = e \<and> status t = Reserved)) (tickets s)"
    by (simp only: tickets_delete_tickets all_stale_filter [OF st])
  have "count_status e Paid (tickets (delete_tickets now (Some e) (Some 60) s)) = 8"
    using paid filter_not_stale_count_status_Paid [of e now e 60 "tickets s"]
    by (simp only: tickets_delete_tickets)
  moreover have "count_status e Reserved (tickets (delete_tickets now (Some e) (Some 60) s)) = 0"
    by (simp only: tk count_status_filter_out)
  ultimately show "swept_count now e (Some 60) s = 8"
    by (simp only: swept_count_def count_taken_split)
qed

lemma example_general:
  assumes ev: "events s e = Some E"
    and lim: "ticket_limit E = 10"
    and paid: "count_status e Paid (tickets s) = 8"
    and res: "count_status e Reserved (tickets s) = 3"
    and old: "\<forall>t\<in>set (tickets s). event t = e \<and> status t = Reserved \<longrightarrow>
                created_ts t = now - 120000000"
  shows "tickets (snd (check_tickets_remaining now (Some e) (Some 60) s)) =
           filter (\<lambda>t. \<not> (event t = e \<and> status t = Reserved)) (tickets s)"
    and "int (length (tickets s)) -
           int (length (tickets (snd (check_tickets_remaining now (Some e) (Some 60) s)))) = 3"
    and "events (snd (check_tickets_remaining now (Some e) (Some 60) s)) e =
           Some (E\<lparr>tickets_taken := 8\<rparr>)"
    and "fst (check_tickets_remaining now (Some e) (Some 60) s) = Returns (Some 2)"
proof -
  let ?s' = "snd (check_tickets_remaining now (Some e) (Some 60) s)"
  note sw = swept_count_example [OF paid old]
  have chk: "check_tickets_remaining now (Some e) (Some 60) s =
      (Returns (Some 2), update_events (Some e) 8 (delete_tickets now (Some e) (Some 60) s))"
    by (simp add: check_existing [OF ev] sw(2) lim int4_def)
  show tk: "tickets ?s' = filter (\<lambda>t. \<not> (event t = e \<and> status t = Reserved)) (tickets s)"
    by (simp only: chk snd_conv tickets_update_events sw(1))
  show "int (length (tickets s)) - int (length (tickets ?s')) = 3"
    by (simp only: tk length_filter_out res)
  show "events ?s' e = Some (E\<lparr>tickets_taken := 8\<rparr>)"
    by (simp only: chk snd_conv events_swept [OF ev])
  show "fst (check_tickets_remaining now (Some e) (Some 60) s) = Returns (Some 2)"
    by (simp only: chk fst_conv)
qed

lemma sample_event_1: "events sample_db 1 = Some \<lparr>ticket_limit = 10, tickets_taken = 11\<rparr>"
  by (simp add: sample_db_def sample_events_def)

lemma sample_negative:
  "fst (check_tickets_remaining 100000000 (Some 1) (Some 60) sample_db) = Returns (Some (- 1))"
proof -
  have "swept_count 100000000 1 (Some 60) sample_db = 11"
    by (simp add: swept_count_def tickets_delete_tickets stale_def count_taken_def
        sample_db_def sample_tickets_def mk_ticket_def)
  then show ?thesis
    by (simp add: check_existing [OF sample_event_1] int4_def)
qed

subsection \<open>An identifier of no event\<close>

lemma missing_event_events:
  assumes "\<not> references_event s event_id" and "events s' = events s"
  shows "update_events event_id n s' = s'"
proof -
  have "(\<lambda>i. if sql_where (sql_eq (Some i) event_id)
             then map_option (\<lambda>e. e\<lparr>tickets_taken := n\<rparr>) (events s' i)
             else events s' i) = events s'"
    using assms
    by (cases event_id) (auto simp: fun_eq_iff references_event_def sql_where_eq_Some sql_where_eq_None)
  then show ?thesis by (simp add: update_events_def)
qed

lemma missing_event_check:
  assumes "\<not> references_event s event_id"
  shows "check_tickets_remaining now event_id ttl s =
     (if int4 (coalesce_lit (count_tickets event_id (delete_tickets now event_id ttl s)) 0)
      then (Returns None, delete_tickets now event_id ttl s)
      else (Raises out_of_range, s))"
proof -
  have ev: "events (delete_tickets now event_id ttl s) = events s"
    by (rule events_delete_tickets)
  have upd: "update_events event_id n (delete_tickets now event_id ttl s) =
      delete_tickets now event_id ttl s" for n
    by (rule missing_event_events [OF assms ev])
  have "\<not> references_event (delete_tickets now event_id ttl s) event_id"
    using assms by (cases event_id) (simp_all add: references_event_def events_delete_tickets)
  then have sel: "select_remaining event_id (delete_tickets now event_id ttl s) = Inr None"
    by (rule select_remaining_missing)
  show ?thesis by (simp add: check_unfold upd sel)
qed

lemma missing_event_unchanged:
  assumes "\<not> references_event s event_id" and "tickets_reference_events s"
  shows "check_tickets_remaining now event_id ttl s = (Returns None, s)"
proof -
  have no: "Some (event t) \<noteq> event_id" if "t \<in> set (tickets s)" for t
  proof
    assume "Some (event t) = event_id"
    moreover have "events s (event t) \<noteq> None"
      using assms(2) that by (simp add: tickets_reference_events_def list_all_iff)
    ultimately show False using assms(1) by (auto simp: references_event_def)
  qed
  have keep: "filter (\<lambda>t. \<not> sql_where (delete_where now event_id ttl t)) (tickets s) = tickets s"
    using no delete_where_event [of now event_id ttl] by (fastforce simp: filter_id_conv)
  have del: "delete_tickets now event_id ttl s = s"
    by (simp add: delete_tickets_def keep)
  have "filter (\<lambda>t. sql_where (count_where event_id t)) (tickets s) = []"
  proof (cases event_id)
    case None
    then show ?thesis by (simp add: count_where_no_event)
  next
    case (Some e)
    then show ?thesis using no by (auto simp: count_where_Some filter_empty_conv)
  qed
  then have cnt: "coalesce_lit (count_tickets event_id s) 0 = 0"
    by (simp add: count_tickets_def coalesce_lit_Some)
  show ?thesis
    by (simp add: missing_event_check [OF assms(1)] del cnt int4_def)
qed

subsection \<open>Calling twice\<close>

lemma delete_tickets_idem:
  "delete_tickets now event_id ttl (delete_tickets now event_id ttl s) =
     delete_tickets now event_id ttl s"
  by (simp add: delete_tickets_def)

lemma delete_update_commute:
  "delete_tickets now event_id ttl (update_events event_id' n s) =
     update_events event_id' n (delete_tickets now event_id ttl s)"
  by (simp add: delete_tickets_def update_events_def cong: if_cong)

lemma count_tickets_update_events:
  "count_tickets event_id (update_events event_id' n s) = count_tickets event_id s"
  by (simp add: count_tickets_def update_events_def)

lemma update_events_idem:
  "update_events event_id n (update_events event_id n s) = update_events event_id n s"
  by (auto simp: update_events_def fun_eq_iff option.map_comp comp_def cong: if_cong)

lemma snd_check_idem:
  "snd (check_tickets_remaining now event_id ttl
          (snd (check_tickets_remaining now event_id ttl s))) =
     snd (check_tickets_remaining now event_id ttl s) \<and>
   fst (check_tickets_remaining now event_id ttl
          (snd (check_tickets_remaining now event_id ttl s))) =
     fst (check_tickets_remaining now event_id ttl s)"
proof (cases "raised (fst (check_tickets_remaining now event_id ttl s))")
  case True
  then show ?thesis by (simp add: check_raised_rollback)
next
  case False
  let ?n = "coalesce_lit (count_tickets event_id (delete_tickets now event_id ttl s)) 0"
  let ?s2 = "update_events event_id ?n (delete_tickets now event_id ttl s)"
  note r = check_returned [OF False]
  have del: "delete_tickets now event_id ttl ?s2 = ?s2"
    by (simp add: delete_update_commute delete_tickets_idem)
  have cnt: "coalesce_lit (count_tickets event_id ?s2) 0 = ?n"
    by (simp add: count_tickets_update_events)
  have upd: "update_events event_id ?n ?s2 = ?s2"
    by (rule update_events_idem)
  obtain v where v: "fst (check_tickets_remaining now event_id ttl s) = Returns v"
    using False by (cases "fst (check_tickets_remaining now event_id ttl s)") auto
  have sel: "select_remaining event_id ?s2 = Inr v"
    using r(3) by (simp add: r(2) v)
  have "check_tickets_remaining now event_id ttl ?s2 = (Returns v, ?s2)"
    by (subst check_unfold) (simp add: del cnt upd sel r(1))
  then show ?thesis by (simp add: r(2) v)
qed

subsection \<open>The trigger\<close>

lemma users_insert_action:
  "users (insert_action now a s) =
     (\<lambda>i. if user_id a = Some i then map_option (\<lambda>u. u\<lparr>active_ts := now\<rparr>) (users s i)
          else users s i)"
  by (cases "user_id a")
    (auto simp: insert_action_def update_user_ts_def fun_eq_iff sql_where_eq_Some sql_where_eq_None)

lemma insert_action_sets_ts:
  assumes "users s uid = Some u" and "user_id a = Some uid"
  shows "users (insert_action now a s) uid = Some (u\<lparr>active_ts := now\<rparr>)"
  using assms by (simp add: users_insert_action)

lemma insert_action_user_cases:
  assumes "users s uid = Some u"
  shows "users (insert_action now a s) uid = Some u \<or>
         users (insert_action now a s) uid = Some (u\<lparr>active_ts := now\<rparr>)"
  using assms by (simp add: users_insert_action)

lemma history_Cons:
  "users s uid = Some u \<Longrightarrow>
     active_ts_history uid (s # ss) = active_ts u # active_ts_history uid ss"
  by (simp add: active_ts_history_def List.map_filter_simps)

lemma history_sorted_aux:
  assumes "sorted (map fst xs)" and "users s uid = Some u"
    and "\<forall>x\<in>set xs. active_ts u \<le> fst x"
  shows "\<exists>r. active_ts_history uid (insert_actions xs s) = active_ts u # r \<and>
             length r = length xs \<and> sorted (active_ts u # r)"
  using assms
proof (induction xs arbitrary: s u)
  case Nil
  then show ?case by (simp add: history_Cons active_ts_history_def List.map_filter_simps)
next
  case (Cons x xs)
  obtain now a where x: "x = (now, a)" by (cases x)
  let ?s' = "insert_action now a s"
  from Cons.prems(2) obtain u' where u': "users ?s' uid = Some u'"
    and cases: "u' = u \<or> u' = u\<lparr>active_ts := now\<rparr>"
    using insert_action_user_cases [of s uid u now a] by auto
  have le: "active_ts u \<le> active_ts u'"
    using cases Cons.prems(3) x by auto
  have bound: "\<forall>y\<in>set xs. active_ts u' \<le> fst y"
    using cases Cons.prems(1,3) x by auto
  have "sorted (map fst xs)" using Cons.prems(1) by simp
  from Cons.IH [OF this u' bound]
  obtain r where r: "active_ts_history uid (insert_actions xs ?s') = active_ts u' # r"
    "length r = length xs" "sorted (active_ts u' # r)" by blast
  have "active_ts_history uid (insert_actions (x # xs) s) = active_ts u # active_ts u' # r"
    using r(1) Cons.prems(2) by (simp add: x history_Cons)
  moreover have "sorted (active_ts u # active_ts u' # r)"
    using r(3) le by auto
  ultimately show ?case using r(2) by simp
qed

lemma history_after_action:
  assumes "users s uid = Some u" and "user_id a = Some uid" and "sorted (now # map fst xs)"
  shows "sorted (active_ts_history uid (insert_actions xs (insert_action now a s)))"
proof -
  have u': "users (insert_action now a s) uid = Some (u\<lparr>active_ts := now\<rparr>)"
    by (rule insert_action_sets_ts [OF assms(1,2)])
  have "sorted (map fst xs)" and "\<forall>x\<in>set xs. active_ts (u\<lparr>active_ts := now\<rparr>) \<le> fst x"
    using assms(3) by auto
  from history_sorted_aux [OF this(1) u' this(2)] show ?thesis by auto
qed

section \<open>Properties of the reservation function\<close>

text \<open>
  C1. For every existing event, right after a call \<^verbatim>\<open>check_tickets_remaining(E.id, ttl)\<close>
  that returns, the column \<^verbatim>\<open>tickets_taken\<close> of the event is the number of its tickets
  that are not cancelled, that is, the reserved ones plus the paid ones, and no other
  column of the event has changed. The state before the call is arbitrary: neither the
  earlier calls nor the earlier value of the column matter. The call returns exactly
  when the count left by the sweep and its difference to the ticket limit fit \<^verbatim>\<open>INT\<close>.
\<close>
theorem tickets_taken_equals_count:
  assumes "events s e = Some E"
  shows "(\<not> raised (fst (check_tickets_remaining now (Some e) ttl s)) \<longrightarrow>
      events (snd (check_tickets_remaining now (Some e) ttl s)) e =
        Some (E\<lparr>tickets_taken :=
                  count_taken e (tickets (snd (check_tickets_remaining now (Some e) ttl s)))\<rparr>) \<and>
      count_taken e (tickets (snd (check_tickets_remaining now (Some e) ttl s))) =
        count_status e Reserved (tickets (snd (check_tickets_remaining now (Some e) ttl s))) +
        count_status e Paid (tickets (snd (check_tickets_remaining now (Some e) ttl s)))) \<and>
    (\<not> raised (fst (check_tickets_remaining now (Some e) ttl s))) =
      (int4 (swept_count now e ttl s) \<and> int4 (ticket_limit E - swept_count now e ttl s))"
proof (intro conjI impI)
  assume r: "\<not> raised (fst (check_tickets_remaining now (Some e) ttl s))"
  show "events (snd (check_tickets_remaining now (Some e) ttl s)) e =
        Some (E\<lparr>tickets_taken :=
                  count_taken e (tickets (snd (check_tickets_remaining now (Some e) ttl s)))\<rparr>)"
    by (rule events_check_existing [OF assms r])
next
  show "count_taken e (tickets (snd (check_tickets_remaining now (Some e) ttl s))) =
        count_status e Reserved (tickets (snd (check_tickets_remaining now (Some e) ttl s))) +
        count_status e Paid (tickets (snd (check_tickets_remaining now (Some e) ttl s)))"
    by (rule count_taken_split)
next
  show "(\<not> raised (fst (check_tickets_remaining now (Some e) ttl s))) =
      (int4 (swept_count now e ttl s) \<and> int4 (ticket_limit E - swept_count now e ttl s))"
    by (rule raised_existing [OF assms])
qed

text \<open>
  The sample database at second 200: the call returns, the cached count of event 1 has
  drifted to 11, and the call sets it to the eight tickets that remain and are not
  cancelled.
\<close>
theorem tickets_taken_equals_count_witness:
  "events sample_db 1 = Some \<lparr>ticket_limit = 10, tickets_taken = 11\<rparr> \<and>
   \<not> raised (fst (check_tickets_remaining 200000000 (Some 1) (Some 60) sample_db)) \<and>
   events (snd (check_tickets_remaining 200000000 (Some 1) (Some 60) sample_db)) 1 =
     Some \<lparr>ticket_limit = 10, tickets_taken = 8\<rparr> \<and>
   count_taken 1 (tickets (snd (check_tickets_remaining 200000000 (Some 1) (Some 60) sample_db))) = 8"
proof -
  let ?r = "check_tickets_remaining 200000000 (Some 1) (Some 60) sample_db"
  have ev: "events sample_db 1 = Some \<lparr>ticket_limit = 10, tickets_taken = 11\<rparr>"
    by (simp add: sample_db_def sample_events_def)
  have sw: "swept_count 200000000 1 (Some 60) sample_db = 8"
    by (simp add: swept_count_def tickets_delete_tickets stale_def count_taken_def
        sample_db_def sample_tickets_def mk_ticket_def)
  note th = tickets_taken_equals_count [OF ev, of 200000000 "Some 60"]
  from th have ok: "\<not> raised (fst ?r)" by (simp add: sw int4_def)
  have ct: "count_taken 1 (tickets (snd ?r)) = 8"
    by (simp add: swept_count_returned [OF ok] sw)
  from th ok have "events (snd ?r) 1 =
      Some (\<lparr>ticket_limit = 10, tickets_taken = 11\<rparr>\<lparr>tickets_taken := count_taken 1 (tickets (snd ?r))\<rparr>)"
    by blast
  with ev ok ct show ?thesis by simp
qed

text \<open>
  C2, as amended. For every existing event, let \<open>c\<close> be the number of its tickets that the
  sweep leaves and that are not cancelled. When \<open>c\<close> and the ticket limit minus \<open>c\<close> fit
  \<^verbatim>\<open>INT\<close>, the call stores \<open>c\<close> in \<^verbatim>\<open>tickets_taken\<close> and returns the ticket limit minus
  \<open>c\<close>, which may be negative; otherwise it raises \<^verbatim>\<open>integer out of range\<close> and changes
  nothing. With a limit of 10, eight paid tickets and three reservations made 120 seconds
  before the call, a time-to-live of 60 seconds deletes the three reservations, stores 8
  and returns 2. The sample database at second 100 has eleven tickets taken for a limit
  of 10, and the call returns -1.
\<close>
theorem remaining_capacity:
  assumes "events s e = Some E"
  shows "(int4 (swept_count now e ttl s) \<and> int4 (ticket_limit E - swept_count now e ttl s) \<longrightarrow>
       fst (check_tickets_remaining now (Some e) ttl s) =
         Returns (Some (ticket_limit E - swept_count now e ttl s)) \<and>
       map_option tickets_taken (events (snd (check_tickets_remaining now (Some e) ttl s)) e) =
         Some (swept_count now e ttl s) \<and>
       swept_count now e ttl s =
         count_taken e (tickets (snd (check_tickets_remaining now (Some e) ttl s)))) \<and>
    (\<not> (int4 (swept_count now e ttl s) \<and> int4 (ticket_limit E - swept_count now e ttl s)) \<longrightarrow>
       check_tickets_remaining now (Some e) ttl s = (Raises out_of_range, s)) \<and>
    (ticket_limit E = 10 \<and> count_status e Paid (tickets s) = 8 \<and>
     count_status e Reserved (tickets s) = 3 \<and>
     (\<forall>t\<in>set (tickets s). event t = e \<and> status t = Reserved \<longrightarrow>
        created_ts t = now - 120 * 1000000) \<longrightarrow>
       tickets (snd (check_tickets_remaining now (Some e) (Some 60) s)) =
         filter (\<lambda>t. \<not> (event t = e \<and> status t = Reserved)) (tickets s) \<and>
       int (length (tickets s)) -
         int (length (tickets (snd (check_tickets_remaining now (Some e) (Some 60) s)))) = 3 \<and>
       events (snd (check_tickets_remaining now (Some e) (Some 60) s)) e =
         Some (E\<lparr>tickets_taken := 8\<rparr>) \<and>
       fst (check_tickets_remaining now (Some e) (Some 60) s) = Returns (Some 2)) \<and>
    fst (check_tickets_remaining 100000000 (Some 1) (Some 60) sample_db) = Returns (Some (- 1))"
proof (intro conjI impI)
  assume fit: "int4 (swept_count now e ttl s) \<and> int4 (ticket_limit E - swept_count now e ttl s)"
  then have ok: "\<not> raised (fst (check_tickets_remaining now (Some e) ttl s))"
    by (simp add: raised_existing [OF assms])
  show "fst (check_tickets_remaining now (Some e) ttl s) =
         Returns (Some (ticket_limit E - swept_count now e ttl s))"
    using fit by (simp add: check_existing [OF assms])
  show "map_option tickets_taken (events (snd (check_tickets_remaining now (Some e) ttl s)) e) =
         Some (swept_count now e ttl s)"
    by (simp add: events_check_existing [OF assms ok] swept_count_returned [OF ok])
  show "swept_count now e ttl s =
         count_taken e (tickets (snd (check_tickets_remaining now (Some e) ttl s)))"
    by (simp add: swept_count_returned [OF ok])
next
  assume "\<not> (int4 (swept_count now e ttl s) \<and> int4 (ticket_limit E - swept_count now e ttl s))"
  then show "check_tickets_remaining now (Some e) ttl s = (Raises out_of_range, s)"
    by (simp only: check_existing [OF assms] if_False)
next
  assume h: "ticket_limit E = 10 \<and> count_status e Paid (tickets s) = 8 \<and>
     count_status e Reserved (tickets s) = 3 \<and>
     (\<forall>t\<in>set (tickets s). event t = e \<and> status t = Reserved \<longrightarrow>
        created_ts t = now - 120 * 1000000)"
  then have old: "\<forall>t\<in>set (tickets s). event t = e \<and> status t = Reserved \<longrightarrow>
      created_ts t = now - 120000000"
    by simp
  note ex = example_general [OF assms _ _ _ old]
  from h ex show "tickets (snd (check_tickets_remaining now (Some e) (Some 60) s)) =
         filter (\<lambda>t. \<not> (event t = e \<and> status t = Reserved)) (tickets s)" by blast
  from h ex show "int (length (tickets s)) -
         int (length (tickets (snd (check_tickets_remaining now (Some e) (Some 60) s)))) = 3" by blast
  from h ex show "events (snd (check_tickets_remaining now (Some e) (Some 60) s)) e =
         Some (E\<lparr>tickets_taken := 8\<rparr>)" by blast
  from h ex show "fst (check_tickets_remaining now (Some e) (Some 60) s) = Returns (Some 2)" by blast
next
  show "fst (check_tickets_remaining 100000000 (Some 1) (Some 60) sample_db) = Returns (Some (- 1))"
    by (rule sample_negative)
qed

text \<open>
  The sample database at second 200 is an instance of the example: event 1 has the limit
  10, eight paid tickets and three reservations made at second 80. The database with the
  smallest limit is an instance of the other case.
\<close>
theorem remaining_capacity_witness:
  "events sample_db 1 = Some \<lparr>ticket_limit = 10, tickets_taken = 11\<rparr> \<and>
   count_status 1 Paid (tickets sample_db) = 8 \<and>
   count_status 1 Reserved (tickets sample_db) = 3 \<and>
   map created_ts (filter (\<lambda>t. event t = 1 \<and> status t = Reserved) (tickets sample_db)) =
     [200000000 - 120 * 1000000, 200000000 - 120 * 1000000, 200000000 - 120 * 1000000] \<and>
   int4 (swept_count 200000000 1 (Some 60) sample_db) \<and>
   int4 (10 - swept_count 200000000 1 (Some 60) sample_db) \<and>
   swept_count 200000000 1 (Some 60) sample_db = 8 \<and>
   int (length (tickets sample_db)) -
     int (length (tickets (snd (check_tickets_remaining 200000000 (Some 1) (Some 60) sample_db)))) = 3 \<and>
   events (snd (check_tickets_remaining 200000000 (Some 1) (Some 60) sample_db)) 1 =
     Some \<lparr>ticket_limit = 10, tickets_taken = 8\<rparr> \<and>
   fst (check_tickets_remaining 200000000 (Some 1) (Some 60) sample_db) = Returns (Some 2) \<and>
   events overflow_db 1 = Some \<lparr>ticket_limit = - 2147483648, tickets_taken = 0\<rparr> \<and>
   swept_count 200000000 1 (Some 60) overflow_db = 1 \<and>
   check_tickets_remaining 200000000 (Some 1) (Some 60) overflow_db =
     (Raises out_of_range, overflow_db)"
proof -
  have ev: "events sample_db 1 = Some \<lparr>ticket_limit = 10, tickets_taken = 11\<rparr>"
    by (simp add: sample_db_def sample_events_def)
  have cnt: "count_status 1 Paid (tickets sample_db) = 8 \<and>
    count_status 1 Reserved (tickets sample_db) = 3"
    by (simp add: count_status_def sample_db_def sample_tickets_def mk_ticket_def)
  have ts: "map created_ts (filter (\<lambda>t. event t = 1 \<and> status t = Reserved) (tickets sample_db)) =
     [200000000 - 120 * 1000000, 200000000 - 120 * 1000000, 200000000 - 120 * 1000000]"
    by (simp add: sample_db_def sample_tickets_def mk_ticket_def)
  have sw: "swept_count 200000000 1 (Some 60) sample_db = 8"
    by (simp add: swept_count_def tickets_delete_tickets stale_def count_taken_def
        sample_db_def sample_tickets_def mk_ticket_def)
  have hyp: "ticket_limit \<lparr>ticket_limit = 10, tickets_taken = 11\<rparr> = 10 \<and>
    count_status 1 Paid (tickets sample_db) = 8 \<and>
    count_status 1 Reserved (tickets sample_db) = 3 \<and>
    (\<forall>t\<in>set (tickets sample_db). event t = 1 \<and> status t = Reserved \<longrightarrow>
        created_ts t = 200000000 - 120 * 1000000)"
    using cnt by (simp add: sample_db_def sample_tickets_def mk_ticket_def)
  from remaining_capacity [OF ev, of 200000000 "Some 60"] hyp
  have one: "int (length (tickets sample_db)) -
     int (length (tickets (snd (check_tickets_remaining 200000000 (Some 1) (Some 60) sample_db)))) = 3 \<and>
   events (snd (check_tickets_remaining 200000000 (Some 1) (Some 60) sample_db)) 1 =
     Some (\<lparr>ticket_limit = 10, tickets_taken = 11\<rparr>\<lparr>tickets_taken := 8\<rparr>) \<and>
   fst (check_tickets_remaining 200000000 (Some 1) (Some 60) sample_db) = Returns (Some 2)"
    by blast
  have ev': "events overflow_db 1 = Some \<lparr>ticket_limit = - 2147483648, tickets_taken = 0\<rparr>"
    by (simp add: overflow_db_def)
  have sw': "swept_count 200000000 1 (Some 60) overflow_db = 1"
    by (simp add: swept_count_def tickets_delete_tickets stale_def count_taken_def
        overflow_db_def mk_ticket_def)
  have "\<not> (int4 (swept_count 200000000 1 (Some 60) overflow_db) \<and>
      int4 (ticket_limit \<lparr>ticket_limit = - 2147483648, tickets_taken = 0\<rparr> -
            swept_count 200000000 1 (Some 60) overflow_db))"
    by (simp add: sw' int4_def)
  with remaining_capacity [OF ev', of 200000000 "Some 60"]
  have two: "check_tickets_remaining 200000000 (Some 1) (Some 60) overflow_db =
     (Raises out_of_range, overflow_db)"
    by blast
  from ev cnt ts sw one ev' sw' two show ?thesis by (simp add: int4_def)
qed

text \<open>
  The claim as stated promises a result for every existing event. With the limit
  -2147483648 and one ticket taken, the difference is below the range of \<^verbatim>\<open>INT\<close>: the
  call raises and leaves the database as it was.
\<close>
theorem remaining_capacity_counterexample:
  "events overflow_db 1 = Some \<lparr>ticket_limit = - 2147483648, tickets_taken = 0\<rparr> \<and>
   raised (fst (check_tickets_remaining 200000000 (Some 1) (Some 60) overflow_db)) \<and>
   check_tickets_remaining 200000000 (Some 1) (Some 60) overflow_db =
     (Raises ''integer out of range'', overflow_db)"
proof -
  have ev: "events overflow_db 1 = Some \<lparr>ticket_limit = - 2147483648, tickets_taken = 0\<rparr>"
    by (simp add: overflow_db_def)
  have sw: "swept_count 200000000 1 (Some 60) overflow_db = 1"
    by (simp add: swept_count_def tickets_delete_tickets stale_def count_taken_def
        overflow_db_def mk_ticket_def)
  have "check_tickets_remaining 200000000 (Some 1) (Some 60) overflow_db =
     (Raises ''integer out of range'', overflow_db)"
    by (simp add: check_existing [OF ev] sw int4_def out_of_range_def)
  with ev show ?thesis by simp
qed

text \<open>
  C3, as amended. When the identifier references no event (it is NULL or no row has it),
  the call raises nothing: it returns NULL, and no row of \<^verbatim>\<open>events\<close> and no row of
  \<^verbatim>\<open>tickets\<close> is changed. The function has no \<^verbatim>\<open>RAISE\<close>, and none of its statements
  fails when no row matches.
\<close>
theorem missing_event_no_error:
  assumes "\<not> references_event s event_id" and "tickets_reference_events s"
  shows "\<not> raised (fst (check_tickets_remaining now event_id ttl s)) \<and>
         fst (check_tickets_remaining now event_id ttl s) = Returns None \<and>
         events (snd (check_tickets_remaining now event_id ttl s)) = events s \<and>
         tickets (snd (check_tickets_remaining now event_id ttl s)) = tickets s"
  by (simp add: missing_event_unchanged [OF assms])

text \<open>
  The sample database and the identifier 7 of no event: nothing is raised and both
  tables are as before.
\<close>
theorem missing_event_no_error_witness:
  "\<not> references_event sample_db (Some 7) \<and> tickets_reference_events sample_db \<and>
   \<not> raised (fst (check_tickets_remaining 200000000 (Some 7) (Some 60) sample_db)) \<and>
   fst (check_tickets_remaining 200000000 (Some 7) (Some 60) sample_db) = Returns None \<and>
   events (snd (check_tickets_remaining 200000000 (Some 7) (Some 60) sample_db)) =
     events sample_db \<and>
   tickets (snd (check_tickets_remaining 200000000 (Some 7) (Some 60) sample_db)) =
     tickets sample_db"
proof -
  have a: "\<not> references_event sample_db (Some 7)"
    by (simp add: references_event_def sample_db_def sample_events_def)
  have b: "tickets_reference_events sample_db"
    by (simp add: tickets_reference_events_def sample_db_def sample_tickets_def
        sample_events_def mk_ticket_def)
  show ?thesis using missing_event_no_error [OF a b, of 200000000 "Some 60"] a b by simp
qed

text \<open>
  The claim as stated, a NotFound error for a missing event, fails on the sample
  database: no event has the identifier 7, and the call returns NULL without raising.
\<close>
theorem missing_event_not_found_counterexample:
  "\<not> references_event sample_db (Some 7) \<and>
   \<not> raised (fst (check_tickets_remaining 200000000 (Some 7) (Some 60) sample_db)) \<and>
   fst (check_tickets_remaining 200000000 (Some 7) (Some 60) sample_db) = Returns None"
proof -
  have a: "\<not> references_event sample_db (Some 7)"
    by (simp add: references_event_def sample_db_def sample_events_def)
  have "coalesce_lit (count_tickets (Some 7)
          (delete_tickets 200000000 (Some 7) (Some 60) sample_db)) 0 = 0"
    by (simp add: count_tickets_Some coalesce_lit_Some tickets_delete_tickets stale_def
        count_taken_def sample_db_def sample_tickets_def mk_ticket_def)
  then show ?thesis using a by (simp add: missing_event_check [OF a] int4_def)
qed




text \<open>
  C5. Two calls in immediate succession, with the same identifier, the same time-to-live
  and the same reading of the clock, and nothing else happening in between: the second
  call returns what the first returned, and it leaves the state as the first call left it,
  the tickets and \<^verbatim>\<open>tickets_taken\<close> included. This holds for every identifier, hence for
  every existing event.
\<close>
theorem second_call_same_result:
  "fst (check_tickets_remaining now event_id ttl
          (snd (check_tickets_remaining now event_id ttl s))) =
     fst (check_tickets_remaining now event_id ttl s) \<and>
   snd (check_tickets_remaining now event_id ttl
          (snd (check_tickets_remaining now event_id ttl s))) =
     snd (check_tickets_remaining now event_id ttl s)"
  by (simp add: snd_check_idem)

text \<open>
  C9, as amended. When the identifier references no event (it is NULL or no row has it),
  the call changes no row of \<^verbatim>\<open>events\<close>, since the \<^verbatim>\<open>UPDATE\<close> matches none, and a call
  that returns returns NULL, since the final \<^verbatim>\<open>SELECT\<close> finds no row; the tickets it
  leaves are those the sweep leaves. When every ticket is owned by an existing event, the
  call returns NULL without raising and leaves the whole database as it was.
\<close>
theorem missing_event_returns_null:
  assumes "\<not> references_event s event_id"
  shows "events (snd (check_tickets_remaining now event_id ttl s)) = events s \<and>
    (\<not> raised (fst (check_tickets_remaining now event_id ttl s)) \<longrightarrow>
       fst (check_tickets_remaining now event_id ttl s) = Returns None \<and>
       tickets (snd (check_tickets_remaining now event_id ttl s)) =
         filter (\<lambda>t. \<not> sql_where (delete_where now event_id ttl t)) (tickets s)) \<and>
    (tickets_reference_events s \<longrightarrow>
       check_tickets_remaining now event_id ttl s = (Returns None, s))"
proof (intro conjI impI)
  show "events (snd (check_tickets_remaining now event_id ttl s)) = events s"
    by (simp add: missing_event_check [OF assms] events_delete_tickets)
next
  assume ok: "\<not> raised (fst (check_tickets_remaining now event_id ttl s))"
  then show "fst (check_tickets_remaining now event_id ttl s) = Returns None"
    by (simp add: missing_event_check [OF assms] split: if_splits)
  show "tickets (snd (check_tickets_remaining now event_id ttl s)) =
         filter (\<lambda>t. \<not> sql_where (delete_where now event_id ttl t)) (tickets s)"
    by (rule tickets_check_returned [OF ok])
next
  assume "tickets_reference_events s"
  then show "check_tickets_remaining now event_id ttl s = (Returns None, s)"
    by (rule missing_event_unchanged [OF assms])
qed

text \<open>
  The sample database, where every ticket has its event, and the database with two
  tickets of the missing event 7.
\<close>
theorem missing_event_returns_null_witness:
  "\<not> references_event sample_db (Some 7) \<and> tickets_reference_events sample_db \<and>
   check_tickets_remaining 200000000 (Some 7) (Some 60) sample_db = (Returns None, sample_db) \<and>
   \<not> references_event orphan_db (Some 7) \<and>
   \<not> raised (fst (check_tickets_remaining 200000000 (Some 7) (Some 60) orphan_db)) \<and>
   fst (check_tickets_remaining 200000000 (Some 7) (Some 60) orphan_db) = Returns None \<and>
   events (snd (check_tickets_remaining 200000000 (Some 7) (Some 60) orphan_db)) =
     events orphan_db"
proof -
  have a: "\<not> references_event sample_db (Some 7)"
    by (simp add: references_event_def sample_db_def sample_events_def)
  have b: "tickets_reference_events sample_db"
    by (simp add: tickets_reference_events_def sample_db_def sample_tickets_def
        sample_events_def mk_ticket_def)
  from missing_event_returns_null [OF a, of 200000000 "Some 60"] b
  have one: "check_tickets_remaining 200000000 (Some 7) (Some 60) sample_db =
      (Returns None, sample_db)" by blast
  have c: "\<not> references_event orphan_db (Some 7)"
    by (simp add: references_event_def orphan_db_def sample_events_def)
  have "coalesce_lit (count_tickets (Some 7)
          (delete_tickets 200000000 (Some 7) (Some 60) orphan_db)) 0 = 1"
    by (simp add: count_tickets_Some coalesce_lit_Some tickets_delete_tickets stale_def
        count_taken_def orphan_db_def mk_ticket_def)
  then have ok: "\<not> raised (fst (check_tickets_remaining 200000000 (Some 7) (Some 60) orphan_db))"
    by (simp add: missing_event_check [OF c] int4_def)
  from missing_event_returns_null [OF c, of 200000000 "Some 60"] ok
  have two: "fst (check_tickets_remaining 200000000 (Some 7) (Some 60) orphan_db) = Returns None \<and>
   events (snd (check_tickets_remaining 200000000 (Some 7) (Some 60) orphan_db)) =
     events orphan_db" by blast
  from a b one c ok two show ?thesis by simp
qed

text \<open>
  The claim as stated leaves every ticket unchanged. The sweep does not look at the
  table of events: of the two tickets that refer to the missing event 7, the stale
  reservation is deleted.
\<close>
theorem missing_event_orphan_counterexample:
  "\<not> references_event orphan_db (Some 7) \<and>
   fst (check_tickets_remaining 200000000 (Some 7) (Some 60) orphan_db) = Returns None \<and>
   tickets orphan_db = [mk_ticket 1 7 Reserved 0, mk_ticket 2 7 Paid 0] \<and>
   tickets (snd (check_tickets_remaining 200000000 (Some 7) (Some 60) orphan_db)) =
     [mk_ticket 2 7 Paid 0] \<and>
   tickets (snd (check_tickets_remaining 200000000 (Some 7) (Some 60) orphan_db)) \<noteq>
     tickets orphan_db"
proof -
  have c: "\<not> references_event orphan_db (Some 7)"
    by (simp add: references_event_def orphan_db_def sample_events_def)
  have tk: "tickets (delete_tickets 200000000 (Some 7) (Some 60) orphan_db) =
      [mk_ticket 2 7 Paid 0]"
    by (simp add: tickets_delete_tickets stale_def orphan_db_def mk_ticket_def)
  have "coalesce_lit (count_tickets (Some 7)
          (delete_tickets 200000000 (Some 7) (Some 60) orphan_db)) 0 = 1"
    by (simp add: count_tickets_Some coalesce_lit_Some tk) (simp add: count_taken_def mk_ticket_def)
  then have "check_tickets_remaining 200000000 (Some 7) (Some 60) orphan_db =
      (Returns None, delete_tickets 200000000 (Some 7) (Some 60) orphan_db)"
    by (simp add: missing_event_check [OF c] int4_def)
  then show ?thesis using c by (simp add: tk) (simp add: orphan_db_def)
qed

section \<open>Properties of the display name\<close>

text \<open>
  C7. \<^verbatim>\<open>full_name\<close> is a function of its three arguments. With both names present it
  returns the first name, a space and the last name; with exactly one it returns that
  one; with none it returns the email. The three examples of the specification follow.
\<close>
theorem full_name_derivation:
  "full_name (Some f) (Some l) e = Some (f @ '' '' @ l) \<and>
   full_name (Some f) None e = Some f \<and>
   full_name None (Some l) e = Some l \<and>
   full_name None None e = e \<and>
   full_name (Some ''Jo'') (Some ''Smith'') (Some ''a@b.com'') = Some ''Jo Smith'' \<and>
   full_name None (Some ''Smith'') (Some ''a@b.com'') = Some ''Smith'' \<and>
   full_name None None (Some ''a@b.com'') = Some ''a@b.com''"
  by (cases e) (simp_all add: full_name_def sql_concat_def)

text \<open>
  C10. An empty string is a name that is present: only NULL makes \<^verbatim>\<open>coalesce\<close> move on.
  With an empty first name the result is the last name after a space, and with an empty
  last name it is the first name before a space, whatever the email; it is neither the
  single name nor a fallback to the email.
\<close>
theorem full_name_empty_string:
  "full_name (Some '''') (Some l) e = Some ('' '' @ l) \<and>
   full_name (Some '''') (Some l) e \<noteq> Some l \<and>
   full_name (Some f) (Some '''') e = Some (f @ '' '') \<and>
   full_name (Some f) (Some '''') e \<noteq> Some f"
  by (simp add: full_name_def sql_concat_def)

section \<open>Properties of the activity timestamp\<close>

text \<open>
  C8, as amended. Inserting an action of an existing user sets the \<^verbatim>\<open>active_ts\<close> of that
  user to the current time and changes no other field of the row. Over a run of
  insertions whose clock readings do not decrease, the values of \<^verbatim>\<open>active_ts\<close> of a user,
  one for each state of the run, do not decrease, provided the value stored at the start
  is not ahead of the readings. This is so in particular for every run that follows an
  action of that user.
\<close>
theorem action_insert_updates_active_ts:
  "(\<forall>u. users s uid = Some u \<and> user_id a = Some uid \<longrightarrow>
      users (insert_action now a s) uid = Some (u\<lparr>active_ts := now\<rparr>)) \<and>
   (\<forall>u. users s uid = Some u \<and> sorted (map fst xs) \<and> (\<forall>x\<in>set xs. active_ts u \<le> fst x) \<longrightarrow>
      length (active_ts_history uid (insert_actions xs s)) = Suc (length xs) \<and>
      sorted (active_ts_history uid (insert_actions xs s))) \<and>
   (\<forall>u. users s uid = Some u \<and> user_id a = Some uid \<and> sorted (now # map fst xs) \<longrightarrow>
      sorted (active_ts_history uid (insert_actions xs (insert_action now a s))))"
proof (intro conjI allI impI)
  fix u assume "users s uid = Some u \<and> user_id a = Some uid"
  then show "users (insert_action now a s) uid = Some (u\<lparr>active_ts := now\<rparr>)"
    by (simp add: insert_action_sets_ts)
next
  fix u
  assume h: "users s uid = Some u \<and> sorted (map fst xs) \<and> (\<forall>x\<in>set xs. active_ts u \<le> fst x)"
  then obtain r where r: "active_ts_history uid (insert_actions xs s) = active_ts u # r"
    "length r = length xs" "sorted (active_ts u # r)"
    using history_sorted_aux [of xs s uid u] by blast
  show "length (active_ts_history uid (insert_actions xs s)) = Suc (length xs)"
    by (simp add: r(1,2))
  show "sorted (active_ts_history uid (insert_actions xs s))"
    by (simp only: r(1) r(3))
next
  fix u
  assume "users s uid = Some u \<and> user_id a = Some uid \<and> sorted (now # map fst xs)"
  then show "sorted (active_ts_history uid (insert_actions xs (insert_action now a s)))"
    using history_after_action [of s uid u a now xs] by blast
qed

text \<open>
  Three insertions into the sample database, two of them by user 3, at the readings 20,
  20 and 35.
\<close>
theorem action_insert_updates_active_ts_witness:
  "users sample_db 3 = Some \<lparr>first_name = Some ''Jo'', last_name = Some ''Smith'',
       email = Some ''a@b.com'', active_ts = 10\<rparr> \<and>
   user_id \<lparr>action_id = 1, user_id = Some 3\<rparr> = Some 3 \<and>
   sorted (map fst [(20, \<lparr>action_id = 1, user_id = Some 3\<rparr>),
                    (20, \<lparr>action_id = 2, user_id = None\<rparr>),
                    (35::int, \<lparr>action_id = 3, user_id = Some 3\<rparr>)]) \<and>
   users (insert_action 20 \<lparr>action_id = 1, user_id = Some 3\<rparr> sample_db) 3 =
     Some \<lparr>first_name = Some ''Jo'', last_name = Some ''Smith'',
       email = Some ''a@b.com'', active_ts = 20\<rparr> \<and>
   length (active_ts_history 3 (insert_actions
     [(20, \<lparr>action_id = 1, user_id = Some 3\<rparr>),
      (20, \<lparr>action_id = 2, user_id = None\<rparr>),
      (35, \<lparr>action_id = 3, user_id = Some 3\<rparr>)] sample_db)) = 4 \<and>
   sorted (active_ts_history 3 (insert_actions
     [(20, \<lparr>action_id = 1, user_id = Some 3\<rparr>),
      (20, \<lparr>action_id = 2, user_id = None\<rparr>),
      (35, \<lparr>action_id = 3, user_id = Some 3\<rparr>)] sample_db)) \<and>
   sorted (active_ts_history 3 (insert_actions
     [(20, \<lparr>action_id = 1, user_id = Some 3\<rparr>),
      (20, \<lparr>action_id = 2, user_id = None\<rparr>),
      (35, \<lparr>action_id = 3, user_id = Some 3\<rparr>)]
     (insert_action 20 \<lparr>action_id = 1, user_id = Some 3\<rparr> sample_db)))"
proof -
  let ?u = "\<lparr>first_name = Some ''Jo'', last_name = Some ''Smith'',
       email = Some ''a@b.com'', active_ts = 10\<rparr>"
  let ?xs = "[(20, \<lparr>action_id = 1, user_id = Some 3\<rparr>),
      (20, \<lparr>action_id = 2, user_id = None\<rparr>),
      (35::int, \<lparr>action_id = 3, user_id = Some 3\<rparr>)]"
  note th = action_insert_updates_active_ts
    [of sample_db 3 "\<lparr>action_id = 1, user_id = Some 3\<rparr>" 20 ?xs]
  have u: "users sample_db 3 = Some ?u"
    by (simp add: sample_db_def sample_users_def)
  have a: "user_id \<lparr>action_id = 1, user_id = Some 3\<rparr> = Some 3" by simp
  have srt: "sorted (map fst ?xs)" by simp
  have srt': "sorted (20 # map fst ?xs)" by simp
  have bnd: "\<forall>x\<in>set ?xs. active_ts ?u \<le> fst x" by simp
  from th u a have one: "users (insert_action 20 \<lparr>action_id = 1, user_id = Some 3\<rparr> sample_db) 3 =
     Some (?u\<lparr>active_ts := 20\<rparr>)" by blast
  from th u srt bnd have two:
    "length (active_ts_history 3 (insert_actions ?xs sample_db)) = Suc (length ?xs) \<and>
     sorted (active_ts_history 3 (insert_actions ?xs sample_db))" by blast
  from th u a srt' have three:
    "sorted (active_ts_history 3 (insert_actions ?xs
       (insert_action 20 \<lparr>action_id = 1, user_id = Some 3\<rparr> sample_db)))" by blast
  from u a srt one two three show ?thesis by simp
qed

text \<open>
  The claim as stated asks for a clock that does not decrease and nothing else. The
  trigger overwrites the stored value whatever it is: from a stored \<^verbatim>\<open>active_ts\<close> of 100,
  two actions at the readings 20 and 30 give the values 100, 20, 30.
\<close>
theorem active_ts_decreases_counterexample:
  "users ahead_db 3 = Some \<lparr>first_name = None, last_name = None, email = Some ''a@b.com'',
       active_ts = 100\<rparr> \<and>
   sorted (map fst two_actions) \<and>
   active_ts_history 3 (insert_actions two_actions ahead_db) = [100, 20, 30] \<and>
   \<not> sorted (active_ts_history 3 (insert_actions two_actions ahead_db))"
proof -
  have h: "active_ts_history 3 (insert_actions two_actions ahead_db) = [100, 20, 30]"
    by (simp add: two_actions_def active_ts_history_def List.map_filter_simps
        users_insert_action ahead_db_def)
  show ?thesis
    by (simp add: h) (simp add: ahead_db_def two_actions_def)
qed

end
